theory Spec2Isabelle
  imports Main "HOL-Library.AList"
begin

section \<open>JavaScript values, objects and the heap\<close>

text \<open>
  The wrapper of \<^verbatim>\<open>src/lib/withHotKeys.js\<close> handles JavaScript values without looking
  inside them, except for one property read (\<^verbatim>\<open>this._ref.hotKeyHandlers\<close>) and two object
  spreads. A value is \<^verbatim>\<open>undefined\<close>, \<^verbatim>\<open>null\<close>, a string, or a reference to an
  object of the heap; functions and class instances are heap objects as well, so two
  values are reference-equal exactly when they are the same \<open>Ref\<close>. An object is the
  list of its enumerable data properties in insertion order.
\<close>

type_synonym addr = nat

datatype val = Undefined | Null | Str string | Ref addr

type_synonym obj = "(string \<times> val) list"

type_synonym heap = "obj list"

datatype error = TypeError

text \<open>An object literal allocates a fresh object: its address is the next free one.\<close>

definition alloc :: "heap \<Rightarrow> obj \<Rightarrow> addr \<times> heap" where
  "alloc h ob = (length h, h @ [ob])"

text \<open>
  The properties of the object at an address. An address beyond the heap has none (a
  program cannot make such a reference).
\<close>

definition heap_lookup :: "heap \<Rightarrow> addr \<Rightarrow> obj" where
  "heap_lookup h a = (if a < length h then h ! a else [])"

text \<open>The decimal name of an index, as the property keys of a string are written.\<close>

fun dec :: "nat \<Rightarrow> string" where
  "dec n = (if n < 10 then [char_of (48 + n)] else dec (n div 10) @ [char_of (48 + n mod 10)])"

declare dec.simps [simp del]

definition string_entries :: "string \<Rightarrow> obj" where
  "string_entries s = map (\<lambda>(j, c). (dec j, Str [c])) (enumerate 0 s)"

text \<open>
  The enumerable own properties of a value, which is what an object spread copies:
  none for \<^verbatim>\<open>undefined\<close> and \<^verbatim>\<open>null\<close>, the indexed characters for a string, the
  properties themselves for an object.
\<close>

fun own_entries :: "heap \<Rightarrow> val \<Rightarrow> obj" where
  "own_entries h Undefined = []"
| "own_entries h Null = []"
| "own_entries h (Str s) = string_entries s"
| "own_entries h (Ref a) = heap_lookup h a"

text \<open>Reading \<^verbatim>\<open>o.k\<close> on an object given by its properties: a missing key reads \<^verbatim>\<open>undefined\<close>.\<close>

definition own_prop :: "obj \<Rightarrow> string \<Rightarrow> val" where
  "own_prop ob k = (case map_of ob k of Some v \<Rightarrow> v | None \<Rightarrow> Undefined)"

text \<open>
  Reading \<^verbatim>\<open>v.k\<close> on a value: a TypeError on \<^verbatim>\<open>undefined\<close> and \<^verbatim>\<open>null\<close>, the property or
  \<^verbatim>\<open>undefined\<close> otherwise. Inherited properties are not modelled: a property the target
  can be read at is listed in its object, and of a string only the indexed characters
  are (the one key the wrapper reads is \<^verbatim>\<open>hotKeyHandlers\<close>).
\<close>

fun get_prop :: "heap \<Rightarrow> val \<Rightarrow> string \<Rightarrow> error + val" where
  "get_prop h Undefined k = Inl TypeError"
| "get_prop h Null k = Inl TypeError"
| "get_prop h v k = Inr (own_prop (own_entries h v) k)"

text \<open>
  \<^verbatim>\<open>Object.assign(t, s)\<close> on property lists, which is also what a spread inside an object
  literal does to the properties written before it: each property of \<open>s\<close>, in order,
  replaces the value of its key in \<open>t\<close> or is appended.
\<close>

definition assign :: "obj \<Rightarrow> obj \<Rightarrow> obj" where
  "assign t s = fold (\<lambda>(k, v). AList.update k v) s t"

definition spread :: "heap \<Rightarrow> obj \<Rightarrow> val \<Rightarrow> obj" where
  "spread h t v = assign t (own_entries h v)"

section \<open>The factory and the wrapper class\<close>

text \<open>
  \<^verbatim>\<open>withHotKeys(keyMap, componentProps)(Component)\<close> returns the class \<^verbatim>\<open>HotKeysWrapper\<close>,
  which closes over its three arguments. The class is the record of what it closes over;
  its methods below take it as their first argument. The call is written in the
  state-passing style of the other operations, so that what it does to the heap and
  whether it throws are statements about it.
\<close>

record wrapper =
  keyMap :: val
  componentProps :: val
  Component :: val

definition withHotKeys :: "val \<Rightarrow> val \<Rightarrow> val \<Rightarrow> heap \<Rightarrow> (error + wrapper) \<times> heap" where
  "withHotKeys km cp C h = (Inr \<lparr>keyMap = km, componentProps = cp, Component = C\<rparr>, h)"

text \<open>
  An instance of the class: \<^verbatim>\<open>this.props\<close>, \<^verbatim>\<open>this.state\<close>, \<^verbatim>\<open>this._ref\<close> (not assigned by
  the constructor, so \<^verbatim>\<open>undefined\<close> until \<^verbatim>\<open>_setRef\<close> runs) and the bound function the
  constructor stores in \<^verbatim>\<open>this._setRef\<close>.
\<close>

record inst =
  props :: obj
  state :: obj
  ref :: val
  bound_setRef :: val

text \<open>
  \<^verbatim>\<open>constructor(props)\<close>: \<^verbatim>\<open>bind\<close> allocates the bound function, then the state literal
  allocates the empty object it holds under \<^verbatim>\<open>handlers\<close>.
\<close>

definition constructor :: "obj \<Rightarrow> heap \<Rightarrow> inst \<times> heap" where
  "constructor p h =
     (let (b, h1) = alloc h [];
          (e, h2) = alloc h1 []
      in (\<lparr>props = p, state = [(''handlers'', Ref e)], ref = Undefined, bound_setRef = Ref b\<rparr>, h2))"

text \<open>\<^verbatim>\<open>_setRef(node)\<close> stores the node.\<close>

definition setRef :: "inst \<Rightarrow> val \<Rightarrow> inst" where
  "setRef i node = i\<lparr>ref := node\<rparr>"

text \<open>
  \<^verbatim>\<open>componentDidMount()\<close> evaluates \<^verbatim>\<open>this._ref.hotKeyHandlers\<close>, which throws when
  \<^verbatim>\<open>this._ref\<close> is \<^verbatim>\<open>undefined\<close> or \<^verbatim>\<open>null\<close>, and then calls \<^verbatim>\<open>setState\<close> once. The result
  is the list of the \<^verbatim>\<open>setState\<close> calls made, each with its argument.
\<close>

datatype effect = SetState obj

definition componentDidMount :: "inst \<Rightarrow> heap \<Rightarrow> error + effect list" where
  "componentDidMount i h =
     (case get_prop h (ref i) ''hotKeyHandlers'' of
        Inl e \<Rightarrow> Inl e
      | Inr v \<Rightarrow> Inr [SetState [(''handlers'', v)]])"

text \<open>
  \<^verbatim>\<open>render()\<close> returns the element \<^verbatim>\<open><HotKeys {...props}><Component ref={this._setRef}
  {...this.props} /></HotKeys>\<close>: an element is its type, the attribute object the JSX
  writes and its children. The attributes of the target are \<^verbatim>\<open>ref\<close> followed by the spread
  of \<^verbatim>\<open>this.props\<close>, which is always an object. What the host makes of an element (it
  hands the attributes to the component as its properties, with the children, and keeps
  \<^verbatim>\<open>ref\<close> and \<^verbatim>\<open>key\<close> for itself) is not the wrapper's.
\<close>

datatype tag = HotKeys | Target val

datatype element = Element tag obj "element list"

definition render :: "wrapper \<Rightarrow> inst \<Rightarrow> heap \<Rightarrow> element" where
  "render w i h =
     (let handlers = own_prop (state i) ''handlers'';
          props' = spread h
            [(''keyMap'', keyMap w), (''handlers'', handlers),
             (''component'', Str ''document-fragment'')]
            (componentProps w)
      in Element HotKeys props'
           [Element (Target (Component w)) (assign [(''ref'', bound_setRef i)] (props i)) []])"

fun attrs :: "element \<Rightarrow> obj" where
  "attrs (Element t a cs) = a"

fun children :: "element \<Rightarrow> element list" where
  "children (Element t a cs) = cs"

section \<open>The host's calls\<close>

text \<open>
  The class is driven by its host, React, which calls its methods; a lifetime of an
  instance is the constructor followed by a list of such calls. The host calls
  \<^verbatim>\<open>render\<close> when it mounts the instance, the ref callback (with the mounted target, or
  with \<^verbatim>\<open>null\<close> at teardown) and \<^verbatim>\<open>componentDidMount\<close>, and it runs an update pass when
  the parent renders again with properties \<open>p\<close>. \<open>Environment h\<close> stands for everything
  else that runs between two calls (the code of the target and of the dispatch unit),
  which may leave the heap in any state \<open>h\<close>. The class defines no other lifecycle
  method, so the host has nothing else of the wrapper's to call.

  The events of a call are what the host gets from it: the element a render returned,
  and the argument of a \<^verbatim>\<open>setState\<close>, for which it schedules an update pass.
\<close>

datatype call = Render | SetRef val | ComponentDidMount | Update obj | Environment heap

datatype event = Rendered element | Committed obj

text \<open>
  The class extends \<^verbatim>\<open>PureComponent\<close>: in an update pass the host calls \<^verbatim>\<open>render\<close> only
  if the next properties or the next state differ shallowly from the current ones.
  Two objects are shallowly equal when they have as many keys and every key of the first
  has the same value (\<^verbatim>\<open>Object.is\<close>, which is equality of \<open>val\<close>) in the second.
\<close>

definition shallowEqual :: "obj \<Rightarrow> obj \<Rightarrow> bool" where
  "shallowEqual a b = (length a = length b \<and> list_all (\<lambda>(k, v). map_of b k = Some v) a)"

definition shouldComponentUpdate :: "inst \<Rightarrow> obj \<Rightarrow> obj \<Rightarrow> bool" where
  "shouldComponentUpdate i nextProps nextState =
     (\<not> shallowEqual (props i) nextProps \<or> \<not> shallowEqual (state i) nextState)"

text \<open>
  An update pass: the host stores the next properties and state in the instance, and
  renders if \<^verbatim>\<open>shouldComponentUpdate\<close> said so.
\<close>

fun update :: "wrapper \<Rightarrow> obj \<Rightarrow> obj \<Rightarrow> inst \<times> heap \<Rightarrow> (inst \<times> heap) \<times> event list" where
  "update w nextProps nextState (i, h) =
     ((i\<lparr>props := nextProps, state := nextState\<rparr>, h),
      if shouldComponentUpdate i nextProps nextState
      then [Rendered (render w (i\<lparr>props := nextProps, state := nextState\<rparr>) h)]
      else [])"

text \<open>
  A \<^verbatim>\<open>setState(q)\<close> with an object makes the next state \<^verbatim>\<open>Object.assign({}, state, q)\<close>.
\<close>

fun next_state :: "effect \<Rightarrow> obj \<Rightarrow> obj" where
  "next_state (SetState q) s = assign s q"

fun scheduled :: "effect \<Rightarrow> event" where
  "scheduled (SetState q) = Committed q"

text \<open>
  One call of the host. After \<^verbatim>\<open>componentDidMount\<close> the host runs, before anything else,
  the one update pass that the \<^verbatim>\<open>setState\<close> calls made in it have scheduled, with the
  properties as they are.
\<close>

fun invoke :: "wrapper \<Rightarrow> call \<Rightarrow> inst \<times> heap \<Rightarrow> error + ((inst \<times> heap) \<times> event list)" where
  "invoke w Render (i, h) = Inr ((i, h), [Rendered (render w i h)])"
| "invoke w (SetRef node) (i, h) = Inr ((setRef i node, h), [])"
| "invoke w ComponentDidMount (i, h) =
     (case componentDidMount i h of
        Inl e \<Rightarrow> Inl e
      | Inr effs \<Rightarrow>
          (if effs = [] then Inr ((i, h), [])
           else (case update w (props i) (fold next_state effs (state i)) (i, h) of
                   (s', evs) \<Rightarrow> Inr (s', map scheduled effs @ evs))))"
| "invoke w (Update p) (i, h) = Inr (update w p (state i) (i, h))"
| "invoke w (Environment h') (i, h) = Inr ((i, h'), [])"

text \<open>A list of calls runs until one throws.\<close>

fun run :: "wrapper \<Rightarrow> call list \<Rightarrow> inst \<times> heap \<Rightarrow> error + ((inst \<times> heap) \<times> event list)" where
  "run w [] s = Inr (s, [])"
| "run w (c # cs) s =
     (case invoke w c s of
        Inl e \<Rightarrow> Inl e
      | Inr (s', evs) \<Rightarrow>
          (case run w cs s' of
             Inl e \<Rightarrow> Inl e
           | Inr (s'', evs') \<Rightarrow> Inr (s'', evs @ evs')))"

fun commits :: "event list \<Rightarrow> obj list" where
  "commits [] = []"
| "commits (Rendered e # evs) = commits evs"
| "commits (Committed q # evs) = q # commits evs"

fun renders :: "event list \<Rightarrow> element list" where
  "renders [] = []"
| "renders (Rendered e # evs) = e # renders evs"
| "renders (Committed q # evs) = renders evs"

text \<open>
  The order in which the host mounts an instance (React's lifecycle of a class
  component): the first render, the ref callback with the mounted target, and
  \<^verbatim>\<open>componentDidMount\<close>. The target is built between the first render and the ref
  callback, so the heap \<open>h\<close> it leaves is a parameter.
\<close>

definition mount_calls :: "val \<Rightarrow> heap \<Rightarrow> call list" where
  "mount_calls node h = [Render, Environment h, SetRef node, ComponentDidMount]"

text \<open>
  A render of the parent: whatever ran since the last call has left the heap \<open>h\<close>, and
  the host runs an update pass with the new properties \<open>p\<close>. The ref callback is the
  same function at every render (it is bound once, in the constructor), so the host
  does not call it again, and \<^verbatim>\<open>componentDidMount\<close> belongs to mounting only.
\<close>

fun update_calls :: "obj \<times> heap \<Rightarrow> call list" where
  "update_calls (p, h) = [Environment h, Update p]"

fun tag_of :: "element \<Rightarrow> tag" where
  "tag_of (Element t a cs) = t"

subsection \<open>An example\<close>

text \<open>
  The heap before a wrapper is instantiated: at 0 the key map
  \<^verbatim>\<open>{logConsole: 'down'}\<close>, at 1 the options \<^verbatim>\<open>{component: 'span', foo: 'bar'}\<close>, at 2 the
  options \<^verbatim>\<open>{handlers: other}\<close> with \<^verbatim>\<open>other = {other: f}\<close> at 3, at 4 a function, which
  stands for the handler \<^verbatim>\<open>f\<close> and for the class of the target.
\<close>

definition ex_heap :: heap where
  "ex_heap =
     [[(''logConsole'', Str ''down'')],
      [(''component'', Str ''span''), (''foo'', Str ''bar'')],
      [(''handlers'', Ref 3)],
      [(''other'', Ref 4)],
      []]"

text \<open>
  The heap once the constructor has run (the bound function at 5, the empty object at 6)
  and a target has been mounted: at 7 a target with \<^verbatim>\<open>hotKeyHandlers = {logConsole: f}\<close>
  (the map at 8), at 9 a target with \<^verbatim>\<open>hotKeyHandlers = {}\<close> (the map at 10), at 11 a
  target that declares no \<^verbatim>\<open>hotKeyHandlers\<close>.
\<close>

definition ex_mounted :: heap where
  "ex_mounted = ex_heap @
     [[], [],
      [(''hotKeyHandlers'', Ref 8)], [(''logConsole'', Ref 4)],
      [(''hotKeyHandlers'', Ref 10)], [],
      []]"

definition ex_wrapper :: "val \<Rightarrow> wrapper" where
  "ex_wrapper cp = \<lparr>keyMap = Ref 0, componentProps = cp, Component = Ref 4\<rparr>"

section \<open>Properties\<close>

lemma map_of_assign:
  "distinct (map fst s) \<Longrightarrow> map_of (assign t s) = map_of t ++ map_of s"
proof (induction s arbitrary: t)
  case Nil
  then show ?case by (simp add: assign_def)
next
  case (Cons kv s)
  obtain k v where kv: "kv = (k, v)" by (cases kv)
  from Cons.prems kv have d: "distinct (map fst s)" and nk: "k \<notin> fst ` set s" by auto
  have "map_of (assign t (kv # s)) = map_of (assign (AList.update k v t) s)"
    by (simp add: assign_def kv)
  also have "\<dots> = map_of (AList.update k v t) ++ map_of s"
    using Cons.IH [OF d] .
  also have "\<dots> = map_of t ++ map_of (kv # s)"
  proof -
    have "k \<notin> dom (map_of s)" using nk by (simp add: dom_map_of_conv_image_fst)
    then show ?thesis by (simp add: kv update_conv' map_add_upd_left)
  qed
  finally show ?case .
qed

lemma own_prop_assign_single: "own_prop (assign t [(k, v)]) k = v"
  by (simp add: assign_def own_prop_def update_conv')

lemma map_of_assign_other:
  "k \<notin> fst ` set s \<Longrightarrow> map_of (assign t s) k = map_of t k"
proof (induction s arbitrary: t)
  case Nil
  then show ?case by (simp add: assign_def)
next
  case (Cons kv s)
  obtain k' v where kv: "kv = (k', v)" by (cases kv)
  from Cons.prems kv have ne: "k' \<noteq> k" and rest: "k \<notin> fst ` set s" by auto
  have "map_of (assign t (kv # s)) k = map_of (assign (AList.update k' v t) s) k"
    by (simp add: assign_def kv)
  also have "\<dots> = map_of (AList.update k' v t) k"
    using Cons.IH [OF rest] .
  also have "\<dots> = map_of t k"
    using ne by (simp add: update_conv')
  finally show ?case .
qed

lemma render_handlers:
  "''handlers'' \<notin> fst ` set (own_entries h (componentProps w)) \<Longrightarrow>
     map_of (attrs (render w i h)) ''handlers'' = Some (own_prop (state i) ''handlers'')"
  by (simp add: render_def spread_def Let_def map_of_assign_other)

lemma commits_append: "commits (xs @ ys) = commits xs @ commits ys"
  by (induction xs rule: commits.induct) simp_all

lemma shallowEqual_single: "shallowEqual [(k, a)] [(k, b)] = (a = b)"
  by (auto simp: shallowEqual_def)

lemma invoke_quiet:
  assumes "c \<noteq> ComponentDidMount"
  shows "\<exists>j g es. invoke w c (i, h) = Inr ((j, g), es) \<and> state j = state i \<and> commits es = []"
  using assms by (cases c) (simp_all add: setRef_def)

lemma run_quiet:
  assumes "ComponentDidMount \<notin> set cs"
  shows "\<exists>j g es. run w cs (i, h) = Inr ((j, g), es) \<and> state j = state i \<and> commits es = []"
  using assms
proof (induction cs arbitrary: i h)
  case Nil
  then show ?case by simp
next
  case (Cons c cs)
  from Cons.prems have c: "c \<noteq> ComponentDidMount" and cs: "ComponentDidMount \<notin> set cs"
    by auto
  from invoke_quiet [OF c] obtain j g es
    where 1: "invoke w c (i, h) = Inr ((j, g), es)" "state j = state i" "commits es = []"
    by blast
  from Cons.IH [OF cs] obtain j' g' es'
    where 2: "run w cs (j, g) = Inr ((j', g'), es')" "state j' = state j" "commits es' = []"
    by blast
  from 1 2 show ?case by (simp add: commits_append)
qed

lemma run_append:
  "run w (xs @ ys) s =
     (case run w xs s of
        Inl e \<Rightarrow> Inl e
      | Inr (s1, ev1) \<Rightarrow>
          (case run w ys s1 of
             Inl e \<Rightarrow> Inl e
           | Inr (s2, ev2) \<Rightarrow> Inr (s2, ev1 @ ev2)))"
  by (induction xs arbitrary: s) (auto split: sum.splits)

text \<open>What the host gets from \<^verbatim>\<open>componentDidMount\<close>, spelled out.\<close>

lemma invoke_activate:
  "invoke w ComponentDidMount (i, h) =
     (case get_prop h (ref i) ''hotKeyHandlers'' of
        Inl e \<Rightarrow> Inl e
      | Inr v \<Rightarrow>
          Inr ((i\<lparr>state := assign (state i) [(''handlers'', v)]\<rparr>, h),
               Committed [(''handlers'', v)] #
               (if shouldComponentUpdate i (props i) (assign (state i) [(''handlers'', v)])
                then [Rendered (render w (i\<lparr>state := assign (state i) [(''handlers'', v)]\<rparr>) h)]
                else [])))"
  by (simp add: componentDidMount_def split: sum.splits)

lemma invoke_activate_ok:
  assumes "get_prop h (ref i) ''hotKeyHandlers'' = Inr v"
  shows "\<exists>pass. invoke w ComponentDidMount (i, h) =
       Inr ((i\<lparr>state := assign (state i) [(''handlers'', v)]\<rparr>, h),
            Committed [(''handlers'', v)] # pass) \<and>
     commits pass = [] \<and> length (renders pass) \<le> 1"
  using assms by (simp add: invoke_activate del: invoke.simps(3))

lemma run_commits_count:
  "run w cs s = Inr (s', es) \<Longrightarrow> length (commits es) = count_list cs ComponentDidMount"
proof (induction cs arbitrary: s s' es)
  case Nil
  then show ?case by simp
next
  case (Cons c cs)
  obtain i h where s: "s = (i, h)" by (cases s)
  from Cons.prems obtain s1 e1 s2 e2
    where 1: "invoke w c s = Inr (s1, e1)" and 2: "run w cs s1 = Inr (s2, e2)"
      and 3: "es = e1 @ e2"
    by (auto split: sum.splits)
  have "length (commits e1) = (if c = ComponentDidMount then 1 else 0)"
  proof (cases "c = ComponentDidMount")
    case True
    with 1 s show ?thesis
      by (auto simp: invoke_activate simp del: invoke.simps(3) split: sum.splits)
  next
    case False
    from invoke_quiet [OF False, of w i h] 1 s show ?thesis using False by auto
  qed
  with Cons.IH [OF 2] 3 show ?case by (simp add: commits_append)
qed

lemma run_updates:
  "\<exists>j g es. run w (concat (map update_calls ups)) (i, h) = Inr ((j, g), es) \<and>
     state j = state i \<and> ref j = ref i \<and> commits es = [] \<and> length (renders es) \<le> length ups"
proof (induction ups arbitrary: i h)
  case Nil
  then show ?case by simp
next
  case (Cons u ups)
  obtain p' h' where u: "u = (p', h')" by (cases u)
  from Cons.IH [of "i\<lparr>props := p'\<rparr>" h'] obtain j g es
    where "run w (concat (map update_calls ups)) (i\<lparr>props := p'\<rparr>, h') = Inr ((j, g), es)"
      "state j = state i" "ref j = ref i" "commits es = []" "length (renders es) \<le> length ups"
    by auto
  then show ?case by (simp add: u)
qed

lemma constructor_state:
  "constructor p h0 =
     (\<lparr>props = p, state = [(''handlers'', Ref (Suc (length h0)))], ref = Undefined,
        bound_setRef = Ref (length h0)\<rparr>, h0 @ [[], []])"
  by (simp add: constructor_def alloc_def)

lemma shouldComponentUpdate_changed:
  "state i = [(k, a)] \<Longrightarrow> v \<noteq> a \<Longrightarrow> shouldComponentUpdate i np [(k, v)]"
  by (simp add: shouldComponentUpdate_def shallowEqual_single)

text \<open>Mounting a new instance, spelled out.\<close>

lemma run_mount:
  "run w (mount_calls node h) (constructor p h0) =
     (case get_prop h node ''hotKeyHandlers'' of
        Inl e \<Rightarrow> Inl e
      | Inr v \<Rightarrow>
          Inr ((\<lparr>props = p, state = [(''handlers'', v)], ref = node,
                  bound_setRef = Ref (length h0)\<rparr>, h),
               Rendered (render w (fst (constructor p h0)) (snd (constructor p h0))) #
               Committed [(''handlers'', v)] #
               (if shouldComponentUpdate
                     \<lparr>props = p, state = [(''handlers'', Ref (Suc (length h0)))], ref = node,
                        bound_setRef = Ref (length h0)\<rparr> p [(''handlers'', v)]
                then [Rendered (render w
                        \<lparr>props = p, state = [(''handlers'', v)], ref = node,
                           bound_setRef = Ref (length h0)\<rparr> h)]
                else [])))"
  by (simp add: mount_calls_def constructor_state setRef_def invoke_activate assign_def
      del: invoke.simps(3) split: sum.splits)

text \<open>
  C1. At every render the attribute object of the dispatch unit is the merge of
  \<^verbatim>\<open>{keyMap, handlers: this.state.handlers, component: 'document-fragment'}\<close> with the own
  properties of \<^verbatim>\<open>componentProps\<close> applied last: a key of \<^verbatim>\<open>componentProps\<close> has the value
  \<^verbatim>\<open>componentProps\<close> gives it (also \<^verbatim>\<open>keyMap\<close>, \<^verbatim>\<open>handlers\<close> and \<^verbatim>\<open>component\<close>), every other
  key keeps the wrapper's value. The hypothesis says that \<^verbatim>\<open>componentProps\<close> is an object,
  which has each key once.
\<close>

theorem render_dispatch_props:
  assumes "distinct (map fst (own_entries h (componentProps w)))"
  shows "tag_of (render w i h) = HotKeys \<and>
     map_of (attrs (render w i h)) =
       map_of [(''keyMap'', keyMap w), (''handlers'', own_prop (state i) ''handlers''),
               (''component'', Str ''document-fragment'')]
       ++ map_of (own_entries h (componentProps w))"
  using assms by (simp add: render_def spread_def map_of_assign Let_def)

theorem render_dispatch_props_witness:
  "distinct (map fst (own_entries ex_heap (componentProps (ex_wrapper (Ref 1))))) \<and>
   map_of (attrs (render (ex_wrapper (Ref 1))
       \<lparr>props = [], state = [(''handlers'', Ref 6)], ref = Undefined, bound_setRef = Ref 5\<rparr>
       ex_heap)) =
     [''keyMap'' \<mapsto> Ref 0, ''handlers'' \<mapsto> Ref 6, ''component'' \<mapsto> Str ''span'',
      ''foo'' \<mapsto> Str ''bar'']"
proof -
  have d: "distinct (map fst (own_entries ex_heap (componentProps (ex_wrapper (Ref 1)))))"
    by (simp add: ex_heap_def ex_wrapper_def heap_lookup_def)
  from render_dispatch_props [OF d] show ?thesis
    using d by (auto simp: ex_heap_def ex_wrapper_def heap_lookup_def own_prop_def
        map_add_def fun_eq_iff)
qed

text \<open>
  C5. The attribute object of the rendered target is \<^verbatim>\<open>{ref: this._setRef, ...this.props}\<close>:
  every property the caller gave the wrapper reaches the target under its own key with
  its own value, and the only other attribute is \<^verbatim>\<open>ref\<close>, the bound capture callback
  (written first, so a \<^verbatim>\<open>ref\<close> key in \<^verbatim>\<open>this.props\<close> would take its place; the host never
  puts one there). The target has no children. The hypothesis says that \<^verbatim>\<open>this.props\<close>
  is an object, which has each key once.
\<close>

theorem render_target_props:
  assumes "distinct (map fst (props i))"
  shows "\<exists>ps. children (render w i h) = [Element (Target (Component w)) ps []] \<and>
     map_of ps = [''ref'' \<mapsto> bound_setRef i] ++ map_of (props i)"
  using assms by (simp add: render_def map_of_assign Let_def)

theorem render_target_props_witness:
  "distinct (map fst (props
      \<lparr>props = [(''id'', Str ''x'')], state = [(''handlers'', Ref 6)], ref = Undefined,
         bound_setRef = Ref 5\<rparr>)) \<and>
   children (render (ex_wrapper Undefined)
      \<lparr>props = [(''id'', Str ''x'')], state = [(''handlers'', Ref 6)], ref = Undefined,
         bound_setRef = Ref 5\<rparr> ex_heap) =
     [Element (Target (Ref 4)) [(''ref'', Ref 5), (''id'', Str ''x'')] []]"
proof -
  let ?i = "\<lparr>props = [(''id'', Str ''x'')], state = [(''handlers'', Ref 6)], ref = Undefined,
         bound_setRef = Ref 5\<rparr>"
  have d: "distinct (map fst (props ?i))" by simp
  from render_target_props [OF d, of "ex_wrapper Undefined" ex_heap] show ?thesis
    using d by (simp add: render_def ex_wrapper_def assign_def Let_def)
qed

text \<open>
  C8. Applying the factory to any key map, any options (also \<^verbatim>\<open>undefined\<close>) and any
  target returns the class, which holds the three arguments as they are; nothing
  is thrown and the heap is left as it was. A failure comes later: the class is returned
  also where mounting an instance of it throws (a target that gives \<^verbatim>\<open>null\<close> as its
  handle).
\<close>

theorem withHotKeys_definitional:
  "snd (withHotKeys km cp C h) = h \<and>
   fst (withHotKeys km cp C h) = Inr \<lparr>keyMap = km, componentProps = cp, Component = C\<rparr> \<and>
   run \<lparr>keyMap = km, componentProps = cp, Component = C\<rparr> (mount_calls Null h')
     (constructor p (snd (withHotKeys km cp C h))) = Inl TypeError"
  by (simp add: withHotKeys_def mount_calls_def constructor_state setRef_def
      componentDidMount_def)

text \<open>
  C10. \<^verbatim>\<open>componentDidMount\<close> reads \<^verbatim>\<open>this._ref.hotKeyHandlers\<close> with no guard: it throws a
  TypeError exactly when \<^verbatim>\<open>this._ref\<close> is \<^verbatim>\<open>undefined\<close> or \<^verbatim>\<open>null\<close>. So mounting throws
  both for a target whose ref callback is called with \<^verbatim>\<open>null\<close> and for one whose ref
  callback is never called.
\<close>

theorem componentDidMount_no_guard:
  "(componentDidMount i h = Inl TypeError) = (ref i = Undefined \<or> ref i = Null) \<and>
   (\<exists>effs. componentDidMount i h = Inr effs) = (ref i \<noteq> Undefined \<and> ref i \<noteq> Null) \<and>
   run w (mount_calls Null h) (constructor p h0) = Inl TypeError \<and>
   run w [Render, Environment h, ComponentDidMount] (constructor p h0) = Inl TypeError"
  by (cases "ref i")
    (simp_all add: componentDidMount_def mount_calls_def constructor_state setRef_def)

lemma invoke_activate_fail:
  "ref i = Undefined \<or> ref i = Null \<Longrightarrow> invoke w ComponentDidMount (i, h) = Inl TypeError"
  by (auto simp: componentDidMount_def)

text \<open>
  C2 as stated fails: not every instance has its state written once. For a target that
  gives no instance handle (a function component: the host never calls the ref
  callback) \<^verbatim>\<open>this._ref\<close> is still \<^verbatim>\<open>undefined\<close> at the activation point,
  \<^verbatim>\<open>this._ref.hotKeyHandlers\<close> throws before \<^verbatim>\<open>setState\<close> is reached, and the state is never
  written: up to the activation point it is the constructor's, with no commit, and the
  activation call, and with it the lifetime, ends in the TypeError.
\<close>

theorem state_written_once_counterexample:
  "run (ex_wrapper Undefined) [Render, Environment ex_mounted] (constructor [] ex_heap) =
     Inr ((\<lparr>props = [], state = [(''handlers'', Ref 6)], ref = Undefined,
             bound_setRef = Ref 5\<rparr>, ex_mounted),
          [Rendered (Element HotKeys
             [(''keyMap'', Ref 0), (''handlers'', Ref 6),
              (''component'', Str ''document-fragment'')]
             [Element (Target (Ref 4)) [(''ref'', Ref 5)] []])]) \<and>
   invoke (ex_wrapper Undefined) ComponentDidMount
     (\<lparr>props = [], state = [(''handlers'', Ref 6)], ref = Undefined, bound_setRef = Ref 5\<rparr>,
      ex_mounted) = Inl TypeError \<and>
   run (ex_wrapper Undefined)
     ([Render, Environment ex_mounted] @ ComponentDidMount #
      [Environment ex_mounted, Update [(''id'', Str ''y'')]])
     (constructor [] ex_heap) = Inl TypeError"
  by (simp add: constructor_state componentDidMount_def render_def spread_def assign_def
      ex_wrapper_def ex_heap_def own_prop_def)

text \<open>
  C2, amended. The constructor leaves \<^verbatim>\<open>this.state.handlers\<close> a new empty object (the
  heap it leaves is the one it found followed by the two objects it allocates). The
  state is written by \<^verbatim>\<open>componentDidMount\<close> only. Take a lifetime in which the host calls
  \<^verbatim>\<open>componentDidMount\<close> once (as React does, after the target has mounted), with any
  calls \<open>pre\<close> before it and any calls \<open>post\<close> after it, and in which the handle held
  when it is called is neither \<^verbatim>\<open>undefined\<close> nor \<^verbatim>\<open>null\<close>. Then nothing throws; the state
  is the constructor's up to that call; that call commits the one write, of the value
  read at \<^verbatim>\<open>this._ref.hotKeyHandlers\<close>; and the state is the committed one from then on.
  No other call of the wrapper writes the state or asks for a commit: in any list of
  calls that runs through, the commits are as many as the calls of
  \<^verbatim>\<open>componentDidMount\<close>. With a handle that is \<^verbatim>\<open>undefined\<close> or \<^verbatim>\<open>null\<close> the call throws
  and writes nothing.
\<close>

theorem state_written_once:
  assumes "ComponentDidMount \<notin> set pre" and "ComponentDidMount \<notin> set post"
    and "run w pre (constructor p h0) = Inr ((i1, h1), ev1)"
    and "ref i1 \<noteq> Undefined" and "ref i1 \<noteq> Null"
  shows "state (fst (constructor p h0)) = [(''handlers'', Ref (Suc (length h0)))] \<and>
     heap_lookup (snd (constructor p h0)) (Suc (length h0)) = [] \<and>
     snd (constructor p h0) = h0 @ [[], []] \<and>
     state i1 = state (fst (constructor p h0)) \<and> commits ev1 = [] \<and>
     (\<exists>i' h' evs v.
        run w (pre @ ComponentDidMount # post) (constructor p h0) = Inr ((i', h'), evs) \<and>
        get_prop h1 (ref i1) ''hotKeyHandlers'' = Inr v \<and>
        commits evs = [[(''handlers'', v)]] \<and>
        state i' = [(''handlers'', v)]) \<and>
     (\<forall>c i h. c \<noteq> ComponentDidMount \<longrightarrow>
        (\<exists>j g es. invoke w c (i, h) = Inr ((j, g), es) \<and> state j = state i \<and> commits es = [])) \<and>
     (\<forall>cs s s' es. run w cs s = Inr (s', es) \<longrightarrow>
        length (commits es) = count_list cs ComponentDidMount) \<and>
     (\<forall>i h. ref i = Undefined \<or> ref i = Null \<longrightarrow>
        invoke w ComponentDidMount (i, h) = Inl TypeError)"
proof -
  let ?i0 = "fst (constructor p h0)"
  let ?g0 = "snd (constructor p h0)"
  have st0: "state ?i0 = [(''handlers'', Ref (Suc (length h0)))]"
    by (simp add: constructor_state)
  have empty: "heap_lookup ?g0 (Suc (length h0)) = []"
    by (simp add: constructor_state heap_lookup_def nth_append)
  have fresh: "snd (constructor p h0) = h0 @ [[], []]"
    by (simp add: constructor_state)
  from run_quiet [OF assms(1), of w ?i0 ?g0] assms(3)
  have st1: "state i1 = state ?i0" and c1: "commits ev1 = []"
    by auto
  from assms(4,5) obtain v where v: "get_prop h1 (ref i1) ''hotKeyHandlers'' = Inr v"
    by (cases "ref i1") auto
  from invoke_activate_ok [OF v, of w] obtain pass
    where act: "invoke w ComponentDidMount (i1, h1) =
        Inr ((i1\<lparr>state := assign (state i1) [(''handlers'', v)]\<rparr>, h1),
             Committed [(''handlers'', v)] # pass)"
      and c2: "commits pass = []"
    by blast
  from run_quiet [OF assms(2), of w "i1\<lparr>state := assign (state i1) [(''handlers'', v)]\<rparr>" h1]
  obtain i' h' ev3
    where post: "run w post (i1\<lparr>state := assign (state i1) [(''handlers'', v)]\<rparr>, h1) =
        Inr ((i', h'), ev3)"
      and st3: "state i' = assign (state i1) [(''handlers'', v)]" and c3: "commits ev3 = []"
    by auto
  have whole: "run w (pre @ ComponentDidMount # post) (constructor p h0) =
      Inr ((i', h'), ev1 @ (Committed [(''handlers'', v)] # pass) @ ev3)"
    using assms(3) act post by (simp add: run_append del: invoke.simps)
  have "state i' = [(''handlers'', v)]"
    using st3 st1 st0 by (simp add: assign_def)
  moreover have "commits (ev1 @ (Committed [(''handlers'', v)] # pass) @ ev3) = [[(''handlers'', v)]]"
    using c1 c2 c3 by (simp add: commits_append)
  ultimately have mid: "\<exists>i' h' evs v.
        run w (pre @ ComponentDidMount # post) (constructor p h0) = Inr ((i', h'), evs) \<and>
        get_prop h1 (ref i1) ''hotKeyHandlers'' = Inr v \<and>
        commits evs = [[(''handlers'', v)]] \<and>
        state i' = [(''handlers'', v)]"
    using whole v by blast
  have others: "\<forall>c i h. c \<noteq> ComponentDidMount \<longrightarrow>
        (\<exists>j g es. invoke w c (i, h) = Inr ((j, g), es) \<and> state j = state i \<and> commits es = [])"
    using invoke_quiet by blast
  have gen: "\<forall>cs s s' es. run w cs s = Inr (s', es) \<longrightarrow>
        length (commits es) = count_list cs ComponentDidMount"
    using run_commits_count by blast
  have fail: "\<forall>i h. ref i = Undefined \<or> ref i = Null \<longrightarrow>
        invoke w ComponentDidMount (i, h) = Inl TypeError"
    using invoke_activate_fail by blast
  from st0 empty fresh st1 c1 mid others gen fail show ?thesis by blast
qed

theorem state_written_once_witness:
  "ComponentDidMount \<notin> set [Render, Environment ex_mounted, SetRef (Ref 7)] \<and>
   ComponentDidMount \<notin> set [Environment ex_mounted, Update [(''id'', Str ''y'')], SetRef Null] \<and>
   run (ex_wrapper Undefined) [Render, Environment ex_mounted, SetRef (Ref 7)]
     (constructor [(''id'', Str ''x'')] ex_heap) =
     Inr ((\<lparr>props = [(''id'', Str ''x'')], state = [(''handlers'', Ref 6)], ref = Ref 7,
             bound_setRef = Ref 5\<rparr>, ex_mounted),
          [Rendered (Element HotKeys
             [(''keyMap'', Ref 0), (''handlers'', Ref 6),
              (''component'', Str ''document-fragment'')]
             [Element (Target (Ref 4)) [(''ref'', Ref 5), (''id'', Str ''x'')] []])]) \<and>
   Ref 7 \<noteq> Undefined \<and> Ref 7 \<noteq> Null \<and>
   (\<exists>i' h' evs.
      run (ex_wrapper Undefined)
        ([Render, Environment ex_mounted, SetRef (Ref 7)] @ ComponentDidMount #
         [Environment ex_mounted, Update [(''id'', Str ''y'')], SetRef Null])
        (constructor [(''id'', Str ''x'')] ex_heap) = Inr ((i', h'), evs) \<and>
      state i' = [(''handlers'', Ref 8)] \<and> commits evs = [[(''handlers'', Ref 8)]])"
proof -
  let ?pre = "[Render, Environment ex_mounted, SetRef (Ref 7)]"
  let ?post = "[Environment ex_mounted, Update [(''id'', Str ''y'')], SetRef Null]"
  let ?i1 = "\<lparr>props = [(''id'', Str ''x'')], state = [(''handlers'', Ref 6)], ref = Ref 7,
             bound_setRef = Ref 5\<rparr>"
  have a: "ComponentDidMount \<notin> set ?pre" by simp
  have b: "ComponentDidMount \<notin> set ?post" by simp
  have c: "run (ex_wrapper Undefined) ?pre (constructor [(''id'', Str ''x'')] ex_heap) =
     Inr ((?i1, ex_mounted),
          [Rendered (Element HotKeys
             [(''keyMap'', Ref 0), (''handlers'', Ref 6),
              (''component'', Str ''document-fragment'')]
             [Element (Target (Ref 4)) [(''ref'', Ref 5), (''id'', Str ''x'')] []])])"
    by (simp add: constructor_state setRef_def render_def spread_def assign_def ex_wrapper_def
        ex_heap_def own_prop_def)
  have d: "ref ?i1 \<noteq> Undefined" by simp
  have e: "ref ?i1 \<noteq> Null" by simp
  have rd: "get_prop ex_mounted (ref ?i1) ''hotKeyHandlers'' = Inr (Ref 8)"
    by (simp add: ex_mounted_def ex_heap_def heap_lookup_def own_prop_def)
  from state_written_once [OF a b c d e] obtain i' h' evs v
    where r: "run (ex_wrapper Undefined) (?pre @ ComponentDidMount # ?post)
        (constructor [(''id'', Str ''x'')] ex_heap) = Inr ((i', h'), evs)"
      and v: "get_prop ex_mounted (ref ?i1) ''hotKeyHandlers'' = Inr v"
      and cs: "commits evs = [[(''handlers'', v)]]" "state i' = [(''handlers'', v)]"
    by blast
  from v rd have "v = Ref 8" by simp
  with r cs have "\<exists>i' h' evs.
      run (ex_wrapper Undefined) (?pre @ ComponentDidMount # ?post)
        (constructor [(''id'', Str ''x'')] ex_heap) = Inr ((i', h'), evs) \<and>
      state i' = [(''handlers'', Ref 8)] \<and> commits evs = [[(''handlers'', Ref 8)]]"
    by blast
  with a b c show ?thesis by simp
qed

text \<open>
  C4 as stated fails: an activation need not commit or schedule anything. For a target
  whose ref callback is called with \<^verbatim>\<open>null\<close>, the host calls \<^verbatim>\<open>componentDidMount\<close> after the
  first render as for any instance, but \<^verbatim>\<open>this._ref.hotKeyHandlers\<close> throws before
  \<^verbatim>\<open>setState\<close> is reached: the method makes no \<^verbatim>\<open>setState\<close> call, and mounting ends in the
  TypeError with no commit and no further render pass.
\<close>

theorem activation_commits_once_counterexample:
  "run (ex_wrapper Undefined) [Render, Environment ex_mounted, SetRef Null]
     (constructor [] ex_heap) =
     Inr ((\<lparr>props = [], state = [(''handlers'', Ref 6)], ref = Null, bound_setRef = Ref 5\<rparr>,
           ex_mounted),
          [Rendered (Element HotKeys
             [(''keyMap'', Ref 0), (''handlers'', Ref 6),
              (''component'', Str ''document-fragment'')]
             [Element (Target (Ref 4)) [(''ref'', Ref 5)] []])]) \<and>
   componentDidMount
     \<lparr>props = [], state = [(''handlers'', Ref 6)], ref = Null, bound_setRef = Ref 5\<rparr>
     ex_mounted = Inl TypeError \<and>
   run (ex_wrapper Undefined) (mount_calls Null ex_mounted) (constructor [] ex_heap) =
     Inl TypeError"
  by (simp add: mount_calls_def constructor_state componentDidMount_def setRef_def render_def
      spread_def assign_def ex_wrapper_def ex_heap_def own_prop_def)

text \<open>
  C4, amended. The wrapper itself never calls \<^verbatim>\<open>componentDidMount\<close>; how often it runs
  is the host's, which calls it once for an instance, in mounting, and not in the
  renders of the parent. Take such a lifetime (mounting, then any number of renders of
  the parent). When the target mounted with a handle that is neither \<^verbatim>\<open>undefined\<close> nor
  \<^verbatim>\<open>null\<close>, nothing throws and what the host gets is the first render, one commit (of the
  value read at \<^verbatim>\<open>hotKeyHandlers\<close>), the one update pass of that commit, which renders at
  most once and does render whenever the value read is not the very object the
  constructor made, and then no commit and at most one render for each render of the
  parent. In any list of calls whatever that runs through, the commits are as many as
  the calls of \<^verbatim>\<open>componentDidMount\<close>: no other call asks for one, and one call never asks
  for two. With a handle that is \<^verbatim>\<open>undefined\<close> or \<^verbatim>\<open>null\<close> the call throws, with no commit
  and no pass.
\<close>

theorem activation_commits_once:
  assumes "node \<noteq> Undefined" and "node \<noteq> Null"
  shows "(\<exists>i' h' e1 v pass rest.
        run w (mount_calls node h @ concat (map update_calls ups)) (constructor p h0) =
          Inr ((i', h'), Rendered e1 # Committed [(''handlers'', v)] # pass @ rest) \<and>
        get_prop h node ''hotKeyHandlers'' = Inr v \<and>
        commits pass = [] \<and> length (renders pass) \<le> 1 \<and>
        (v \<noteq> Ref (Suc (length h0)) \<longrightarrow> length (renders pass) = 1) \<and>
        commits rest = [] \<and> length (renders rest) \<le> length ups) \<and>
     (\<forall>cs s s' es. run w cs s = Inr (s', es) \<longrightarrow>
        length (commits es) = count_list cs ComponentDidMount) \<and>
     (\<forall>i g. ref i = Undefined \<or> ref i = Null \<longrightarrow>
        invoke w ComponentDidMount (i, g) = Inl TypeError)"
proof -
  from assms obtain v where v: "get_prop h node ''hotKeyHandlers'' = Inr v"
    by (cases node) auto
  let ?i1 = "\<lparr>props = p, state = [(''handlers'', Ref (Suc (length h0)))], ref = node,
        bound_setRef = Ref (length h0)\<rparr>"
  let ?i2 = "\<lparr>props = p, state = [(''handlers'', v)], ref = node,
        bound_setRef = Ref (length h0)\<rparr>"
  let ?e1 = "render w (fst (constructor p h0)) (snd (constructor p h0))"
  let ?pass = "if shouldComponentUpdate ?i1 p [(''handlers'', v)]
      then [Rendered (render w ?i2 h)] else []"
  have m: "run w (mount_calls node h) (constructor p h0) =
      Inr ((?i2, h), Rendered ?e1 # Committed [(''handlers'', v)] # ?pass)"
    using v by (simp add: run_mount)
  have p1: "commits ?pass = []" by simp
  have p2: "length (renders ?pass) \<le> 1" by simp
  have p3: "v \<noteq> Ref (Suc (length h0)) \<longrightarrow> length (renders ?pass) = 1"
    by (simp add: shouldComponentUpdate_changed)
  from run_updates [of w ups ?i2 h] obtain i' h' rest
    where u: "run w (concat (map update_calls ups)) (?i2, h) = Inr ((i', h'), rest)"
      and r1: "commits rest = []" and r2: "length (renders rest) \<le> length ups"
    by blast
  have "run w (mount_calls node h @ concat (map update_calls ups)) (constructor p h0) =
      Inr ((i', h'), Rendered ?e1 # Committed [(''handlers'', v)] # ?pass @ rest)"
    using m u by (simp add: run_append)
  with v p1 p2 p3 r1 r2 have tr: "\<exists>i' h' e1 v pass rest.
        run w (mount_calls node h @ concat (map update_calls ups)) (constructor p h0) =
          Inr ((i', h'), Rendered e1 # Committed [(''handlers'', v)] # pass @ rest) \<and>
        get_prop h node ''hotKeyHandlers'' = Inr v \<and>
        commits pass = [] \<and> length (renders pass) \<le> 1 \<and>
        (v \<noteq> Ref (Suc (length h0)) \<longrightarrow> length (renders pass) = 1) \<and>
        commits rest = [] \<and> length (renders rest) \<le> length ups"
    by blast
  have gen: "\<forall>cs s s' es. run w cs s = Inr (s', es) \<longrightarrow>
        length (commits es) = count_list cs ComponentDidMount"
    using run_commits_count by blast
  have fail: "\<forall>i g. ref i = Undefined \<or> ref i = Null \<longrightarrow>
        invoke w ComponentDidMount (i, g) = Inl TypeError"
    using invoke_activate_fail by blast
  from tr gen fail show ?thesis by blast
qed

theorem activation_commits_once_witness:
  "Ref 7 \<noteq> Undefined \<and> Ref 7 \<noteq> Null \<and>
   run (ex_wrapper Undefined)
     (mount_calls (Ref 7) ex_mounted @
      concat (map update_calls [([(''id'', Str ''y'')], ex_mounted)]))
     (constructor [(''id'', Str ''x'')] ex_heap) =
     Inr ((\<lparr>props = [(''id'', Str ''y'')], state = [(''handlers'', Ref 8)], ref = Ref 7,
             bound_setRef = Ref 5\<rparr>, ex_mounted),
          [Rendered (Element HotKeys
             [(''keyMap'', Ref 0), (''handlers'', Ref 6),
              (''component'', Str ''document-fragment'')]
             [Element (Target (Ref 4)) [(''ref'', Ref 5), (''id'', Str ''x'')] []]),
           Committed [(''handlers'', Ref 8)],
           Rendered (Element HotKeys
             [(''keyMap'', Ref 0), (''handlers'', Ref 8),
              (''component'', Str ''document-fragment'')]
             [Element (Target (Ref 4)) [(''ref'', Ref 5), (''id'', Str ''x'')] []]),
           Rendered (Element HotKeys
             [(''keyMap'', Ref 0), (''handlers'', Ref 8),
              (''component'', Str ''document-fragment'')]
             [Element (Target (Ref 4)) [(''ref'', Ref 5), (''id'', Str ''y'')] []])])"
proof -
  have a: "Ref 7 \<noteq> Undefined" by simp
  have b: "Ref 7 \<noteq> Null" by simp
  have c: "run (ex_wrapper Undefined)
     (mount_calls (Ref 7) ex_mounted @
      concat (map update_calls [([(''id'', Str ''y'')], ex_mounted)]))
     (constructor [(''id'', Str ''x'')] ex_heap) =
     Inr ((\<lparr>props = [(''id'', Str ''y'')], state = [(''handlers'', Ref 8)], ref = Ref 7,
             bound_setRef = Ref 5\<rparr>, ex_mounted),
          [Rendered (Element HotKeys
             [(''keyMap'', Ref 0), (''handlers'', Ref 6),
              (''component'', Str ''document-fragment'')]
             [Element (Target (Ref 4)) [(''ref'', Ref 5), (''id'', Str ''x'')] []]),
           Committed [(''handlers'', Ref 8)],
           Rendered (Element HotKeys
             [(''keyMap'', Ref 0), (''handlers'', Ref 8),
              (''component'', Str ''document-fragment'')]
             [Element (Target (Ref 4)) [(''ref'', Ref 5), (''id'', Str ''x'')] []]),
           Rendered (Element HotKeys
             [(''keyMap'', Ref 0), (''handlers'', Ref 8),
              (''component'', Str ''document-fragment'')]
             [Element (Target (Ref 4)) [(''ref'', Ref 5), (''id'', Str ''y'')] []])])"
    by (simp add: mount_calls_def constructor_state componentDidMount_def setRef_def render_def
        shouldComponentUpdate_def shallowEqual_def spread_def assign_def ex_wrapper_def
        ex_mounted_def ex_heap_def heap_lookup_def own_prop_def)
  from activation_commits_once [OF a b, of "ex_wrapper Undefined" ex_mounted
      "[([(''id'', Str ''y'')], ex_mounted)]" "[(''id'', Str ''x'')]" ex_heap]
  obtain i' h' e1 v pass rest
    where "run (ex_wrapper Undefined)
        (mount_calls (Ref 7) ex_mounted @
         concat (map update_calls [([(''id'', Str ''y'')], ex_mounted)]))
        (constructor [(''id'', Str ''x'')] ex_heap) =
        Inr ((i', h'), Rendered e1 # Committed [(''handlers'', v)] # pass @ rest)"
      and "get_prop ex_mounted (Ref 7) ''hotKeyHandlers'' = Inr v"
    by blast
  with a b c show ?thesis by blast
qed

text \<open>
  C3 as stated fails: with options that carry a \<^verbatim>\<open>handlers\<close> entry the dispatch unit is
  given that entry at every render, not the map the target declares. Here the target at
  7 declares the map at 8, the options at 2 carry the map at 3, and after mounting the
  dispatch unit has the one at 3.
\<close>

theorem handlers_reference_equal_counterexample:
  "map_of (heap_lookup ex_mounted 7) ''hotKeyHandlers'' = Some (Ref 8) \<and>
   heap_lookup ex_mounted 8 = [(''logConsole'', Ref 4)] \<and>
   run (ex_wrapper (Ref 2)) (mount_calls (Ref 7) ex_mounted) (constructor [] ex_heap) =
     Inr ((\<lparr>props = [], state = [(''handlers'', Ref 8)], ref = Ref 7, bound_setRef = Ref 5\<rparr>,
           ex_mounted),
          [Rendered (Element HotKeys
             [(''keyMap'', Ref 0), (''handlers'', Ref 3),
              (''component'', Str ''document-fragment'')]
             [Element (Target (Ref 4)) [(''ref'', Ref 5)] []]),
           Committed [(''handlers'', Ref 8)],
           Rendered (Element HotKeys
             [(''keyMap'', Ref 0), (''handlers'', Ref 3),
              (''component'', Str ''document-fragment'')]
             [Element (Target (Ref 4)) [(''ref'', Ref 5)] []])]) \<and>
   own_prop (attrs (render (ex_wrapper (Ref 2))
       \<lparr>props = [], state = [(''handlers'', Ref 8)], ref = Ref 7, bound_setRef = Ref 5\<rparr>
       ex_mounted)) ''handlers'' \<noteq> Ref 8"
  by (simp add: mount_calls_def constructor_state componentDidMount_def setRef_def render_def
      shouldComponentUpdate_def shallowEqual_def spread_def assign_def ex_wrapper_def
      ex_mounted_def ex_heap_def heap_lookup_def own_prop_def)

text \<open>
  C3, amended. When the captured handle is an object whose \<^verbatim>\<open>hotKeyHandlers\<close> is the
  object \<open>m\<close> (empty or not), activation commits \<open>Ref m\<close> itself and leaves the heap as
  it is, so nothing is copied; and whatever the host calls afterwards, the state holds
  \<open>Ref m\<close>, and a render passes \<open>Ref m\<close> as \<^verbatim>\<open>handlers\<close> to the dispatch unit provided
  the options carry no \<^verbatim>\<open>handlers\<close> entry of their own.
\<close>

theorem handlers_reference_equal:
  assumes "ref i = Ref n" and "map_of (heap_lookup h n) ''hotKeyHandlers'' = Some (Ref m)"
    and "ComponentDidMount \<notin> set post"
  shows "(\<exists>pass. invoke w ComponentDidMount (i, h) =
         Inr ((i\<lparr>state := assign (state i) [(''handlers'', Ref m)]\<rparr>, h),
              Committed [(''handlers'', Ref m)] # pass) \<and> commits pass = []) \<and>
     (\<exists>i' h' evs.
        run w (ComponentDidMount # post) (i, h) = Inr ((i', h'), evs) \<and>
        own_prop (state i') ''handlers'' = Ref m \<and>
        (''handlers'' \<notin> fst ` set (own_entries h' (componentProps w)) \<longrightarrow>
           map_of (attrs (render w i' h')) ''handlers'' = Some (Ref m)))"
proof -
  let ?i1 = "i\<lparr>state := assign (state i) [(''handlers'', Ref m)]\<rparr>"
  have rd: "get_prop h (ref i) ''hotKeyHandlers'' = Inr (Ref m)"
    using assms(1,2) by (simp add: own_prop_def)
  from invoke_activate_ok [OF rd, of w] obtain pass
    where act: "invoke w ComponentDidMount (i, h) =
        Inr ((?i1, h), Committed [(''handlers'', Ref m)] # pass)"
      and cp: "commits pass = []"
    by blast
  from run_quiet [OF assms(3), of w ?i1 h] obtain i' h' es
    where post: "run w post (?i1, h) = Inr ((i', h'), es)" and st: "state i' = state ?i1"
    by blast
  have cap: "own_prop (state i') ''handlers'' = Ref m"
    using st by (simp add: own_prop_assign_single)
  have "run w (ComponentDidMount # post) (i, h) =
      Inr ((i', h'), (Committed [(''handlers'', Ref m)] # pass) @ es)"
    using act post by (simp del: invoke.simps)
  moreover have "''handlers'' \<notin> fst ` set (own_entries h' (componentProps w)) \<longrightarrow>
      map_of (attrs (render w i' h')) ''handlers'' = Some (Ref m)"
    using cap by (simp add: render_handlers)
  ultimately show ?thesis using act cp cap by blast
qed

theorem handlers_reference_equal_witness:
  "ref \<lparr>props = [], state = [(''handlers'', Ref 6)], ref = Ref 7, bound_setRef = Ref 5\<rparr> = Ref 7 \<and>
   map_of (heap_lookup ex_mounted 7) ''hotKeyHandlers'' = Some (Ref 8) \<and>
   ComponentDidMount \<notin> set [Update [(''id'', Str ''y'')]] \<and>
   ''handlers'' \<notin> fst ` set (own_entries ex_mounted (componentProps (ex_wrapper (Ref 1)))) \<and>
   run (ex_wrapper (Ref 1)) [ComponentDidMount, Update [(''id'', Str ''y'')]]
     (\<lparr>props = [], state = [(''handlers'', Ref 6)], ref = Ref 7, bound_setRef = Ref 5\<rparr>,
      ex_mounted) =
     Inr ((\<lparr>props = [(''id'', Str ''y'')], state = [(''handlers'', Ref 8)], ref = Ref 7,
             bound_setRef = Ref 5\<rparr>, ex_mounted),
          [Committed [(''handlers'', Ref 8)],
           Rendered (Element HotKeys
             [(''keyMap'', Ref 0), (''handlers'', Ref 8), (''component'', Str ''span''),
              (''foo'', Str ''bar'')]
             [Element (Target (Ref 4)) [(''ref'', Ref 5)] []]),
           Rendered (Element HotKeys
             [(''keyMap'', Ref 0), (''handlers'', Ref 8), (''component'', Str ''span''),
              (''foo'', Str ''bar'')]
             [Element (Target (Ref 4)) [(''ref'', Ref 5), (''id'', Str ''y'')] []])])"
proof -
  let ?i = "\<lparr>props = [], state = [(''handlers'', Ref 6)], ref = Ref 7, bound_setRef = Ref 5\<rparr>"
  have a: "ref ?i = Ref 7" by simp
  have b: "map_of (heap_lookup ex_mounted 7) ''hotKeyHandlers'' = Some (Ref 8)"
    by (simp add: ex_mounted_def ex_heap_def heap_lookup_def)
  have c: "ComponentDidMount \<notin> set [Update [(''id'', Str ''y'')]]" by simp
  have d: "''handlers'' \<notin> fst ` set (own_entries ex_mounted (componentProps (ex_wrapper (Ref 1))))"
    by (simp add: ex_wrapper_def ex_mounted_def ex_heap_def heap_lookup_def)
  have e: "run (ex_wrapper (Ref 1)) [ComponentDidMount, Update [(''id'', Str ''y'')]]
     (?i, ex_mounted) =
     Inr ((\<lparr>props = [(''id'', Str ''y'')], state = [(''handlers'', Ref 8)], ref = Ref 7,
             bound_setRef = Ref 5\<rparr>, ex_mounted),
          [Committed [(''handlers'', Ref 8)],
           Rendered (Element HotKeys
             [(''keyMap'', Ref 0), (''handlers'', Ref 8), (''component'', Str ''span''),
              (''foo'', Str ''bar'')]
             [Element (Target (Ref 4)) [(''ref'', Ref 5)] []]),
           Rendered (Element HotKeys
             [(''keyMap'', Ref 0), (''handlers'', Ref 8), (''component'', Str ''span''),
              (''foo'', Str ''bar'')]
             [Element (Target (Ref 4)) [(''ref'', Ref 5), (''id'', Str ''y'')] []])])"
    by (simp add: componentDidMount_def render_def shouldComponentUpdate_def shallowEqual_def
        spread_def assign_def ex_wrapper_def ex_mounted_def ex_heap_def heap_lookup_def
        own_prop_def)
  from handlers_reference_equal [OF a b c, of "ex_wrapper (Ref 1)"] obtain i' h' evs
    where "run (ex_wrapper (Ref 1)) (ComponentDidMount # [Update [(''id'', Str ''y'')]])
        (?i, ex_mounted) = Inr ((i', h'), evs)"
      and "own_prop (state i') ''handlers'' = Ref 8"
    by blast
  with a b c d e show ?thesis by blast
qed

text \<open>
  C6 as stated fails at two kinds of input. With options that carry a \<^verbatim>\<open>handlers\<close> entry,
  the value captured from a target without \<^verbatim>\<open>hotKeyHandlers\<close> is \<^verbatim>\<open>undefined\<close>, but what
  the dispatch unit is given as \<^verbatim>\<open>handlers\<close> is the entry of the options: here the
  target at 11 declares nothing and the options at 2 carry the map at 3. And a target
  that gives \<^verbatim>\<open>null\<close> as its handle exposes no \<^verbatim>\<open>hotKeyHandlers\<close> either, but there the
  read throws: nothing is captured or forwarded.
\<close>

theorem missing_handlers_counterexample:
  "map_of (heap_lookup ex_mounted 11) ''hotKeyHandlers'' = None \<and>
   run (ex_wrapper (Ref 2)) (mount_calls (Ref 11) ex_mounted) (constructor [] ex_heap) =
     Inr ((\<lparr>props = [], state = [(''handlers'', Undefined)], ref = Ref 11,
             bound_setRef = Ref 5\<rparr>, ex_mounted),
          [Rendered (Element HotKeys
             [(''keyMap'', Ref 0), (''handlers'', Ref 3),
              (''component'', Str ''document-fragment'')]
             [Element (Target (Ref 4)) [(''ref'', Ref 5)] []]),
           Committed [(''handlers'', Undefined)],
           Rendered (Element HotKeys
             [(''keyMap'', Ref 0), (''handlers'', Ref 3),
              (''component'', Str ''document-fragment'')]
             [Element (Target (Ref 4)) [(''ref'', Ref 5)] []])]) \<and>
   own_prop (attrs (render (ex_wrapper (Ref 2))
       \<lparr>props = [], state = [(''handlers'', Undefined)], ref = Ref 11, bound_setRef = Ref 5\<rparr>
       ex_mounted)) ''handlers'' \<noteq> Undefined \<and>
   map_of (own_entries ex_mounted Null) ''hotKeyHandlers'' = None \<and>
   run (ex_wrapper Undefined) (mount_calls Null ex_mounted) (constructor [] ex_heap) =
     Inl TypeError"
  by (simp add: mount_calls_def constructor_state componentDidMount_def setRef_def render_def
      shouldComponentUpdate_def shallowEqual_def spread_def assign_def ex_wrapper_def
      ex_mounted_def ex_heap_def heap_lookup_def own_prop_def)

text \<open>
  C6, amended. When the handle of the mounted target is an object (so neither
  \<^verbatim>\<open>undefined\<close> nor \<^verbatim>\<open>null\<close>) with no \<^verbatim>\<open>hotKeyHandlers\<close> property, constructing and mounting
  the wrapper throws nothing: the host gets the first render, the commit of
  \<^verbatim>\<open>handlers: undefined\<close> (not an empty object) and the render of the update pass. The same
  holds of activation from any state of the instance; whatever the host calls
  afterwards, the state has the key \<^verbatim>\<open>handlers\<close> with the value \<^verbatim>\<open>undefined\<close>, and a render
  passes it on as it is provided the options carry no \<^verbatim>\<open>handlers\<close> entry of their own.
\<close>

theorem missing_handlers_undefined:
  assumes "map_of (heap_lookup h n) ''hotKeyHandlers'' = None"
    and "ComponentDidMount \<notin> set post"
  shows "(\<exists>i' e1.
        run w (mount_calls (Ref n) h) (constructor p h0) =
          Inr ((i', h), [Rendered e1, Committed [(''handlers'', Undefined)],
                         Rendered (render w i' h)]) \<and>
        state i' = [(''handlers'', Undefined)] \<and> ref i' = Ref n) \<and>
     (\<forall>i. ref i = Ref n \<longrightarrow>
        (\<exists>pass. invoke w ComponentDidMount (i, h) =
           Inr ((i\<lparr>state := assign (state i) [(''handlers'', Undefined)]\<rparr>, h),
                Committed [(''handlers'', Undefined)] # pass) \<and> commits pass = []) \<and>
        (\<exists>i' h' evs.
           run w (ComponentDidMount # post) (i, h) = Inr ((i', h'), evs) \<and>
           map_of (state i') ''handlers'' = Some Undefined \<and>
           (''handlers'' \<notin> fst ` set (own_entries h' (componentProps w)) \<longrightarrow>
              map_of (attrs (render w i' h')) ''handlers'' = Some Undefined)))"
proof -
  have rd: "get_prop h (Ref n) ''hotKeyHandlers'' = Inr Undefined"
    using assms(1) by (simp add: own_prop_def)
  let ?i2 = "\<lparr>props = p, state = [(''handlers'', Undefined)], ref = Ref n,
        bound_setRef = Ref (length h0)\<rparr>"
  have "run w (mount_calls (Ref n) h) (constructor p h0) =
      Inr ((?i2, h),
           [Rendered (render w (fst (constructor p h0)) (snd (constructor p h0))),
            Committed [(''handlers'', Undefined)], Rendered (render w ?i2 h)])"
    using rd by (simp add: run_mount shouldComponentUpdate_changed)
  then have mount: "\<exists>i' e1.
        run w (mount_calls (Ref n) h) (constructor p h0) =
          Inr ((i', h), [Rendered e1, Committed [(''handlers'', Undefined)],
                         Rendered (render w i' h)]) \<and>
        state i' = [(''handlers'', Undefined)] \<and> ref i' = Ref n"
    by (intro exI [of _ ?i2]) simp
  have any: "(\<exists>pass. invoke w ComponentDidMount (i, h) =
           Inr ((i\<lparr>state := assign (state i) [(''handlers'', Undefined)]\<rparr>, h),
                Committed [(''handlers'', Undefined)] # pass) \<and> commits pass = []) \<and>
        (\<exists>i' h' evs.
           run w (ComponentDidMount # post) (i, h) = Inr ((i', h'), evs) \<and>
           map_of (state i') ''handlers'' = Some Undefined \<and>
           (''handlers'' \<notin> fst ` set (own_entries h' (componentProps w)) \<longrightarrow>
              map_of (attrs (render w i' h')) ''handlers'' = Some Undefined))"
    if ri: "ref i = Ref n" for i
  proof -
    let ?i1 = "i\<lparr>state := assign (state i) [(''handlers'', Undefined)]\<rparr>"
    have rd': "get_prop h (ref i) ''hotKeyHandlers'' = Inr Undefined"
      using rd ri by simp
    from invoke_activate_ok [OF rd', of w] obtain pass
      where act: "invoke w ComponentDidMount (i, h) =
          Inr ((?i1, h), Committed [(''handlers'', Undefined)] # pass)"
        and cp: "commits pass = []"
      by blast
    from run_quiet [OF assms(2), of w ?i1 h] obtain i' h' es
      where post: "run w post (?i1, h) = Inr ((i', h'), es)" and st: "state i' = state ?i1"
      by blast
    have cap: "map_of (state i') ''handlers'' = Some Undefined"
      using st by (simp add: assign_def update_conv')
    then have cap': "own_prop (state i') ''handlers'' = Undefined"
      by (simp add: own_prop_def)
    have "run w (ComponentDidMount # post) (i, h) =
        Inr ((i', h'), (Committed [(''handlers'', Undefined)] # pass) @ es)"
      using act post by (simp del: invoke.simps)
    moreover have "''handlers'' \<notin> fst ` set (own_entries h' (componentProps w)) \<longrightarrow>
        map_of (attrs (render w i' h')) ''handlers'' = Some Undefined"
      using cap' by (simp add: render_handlers)
    ultimately show ?thesis using act cp cap by blast
  qed
  from mount any show ?thesis by blast
qed

theorem missing_handlers_undefined_witness:
  "map_of (heap_lookup ex_mounted 11) ''hotKeyHandlers'' = None \<and>
   ComponentDidMount \<notin> set [Update [(''id'', Str ''y'')]] \<and>
   ''handlers'' \<notin> fst ` set (own_entries ex_mounted (componentProps (ex_wrapper Undefined))) \<and>
   run (ex_wrapper Undefined) (mount_calls (Ref 11) ex_mounted @ [Update [(''id'', Str ''y'')]])
     (constructor [] ex_heap) =
     Inr ((\<lparr>props = [(''id'', Str ''y'')], state = [(''handlers'', Undefined)], ref = Ref 11,
             bound_setRef = Ref 5\<rparr>, ex_mounted),
          [Rendered (Element HotKeys
             [(''keyMap'', Ref 0), (''handlers'', Ref 6),
              (''component'', Str ''document-fragment'')]
             [Element (Target (Ref 4)) [(''ref'', Ref 5)] []]),
           Committed [(''handlers'', Undefined)],
           Rendered (Element HotKeys
             [(''keyMap'', Ref 0), (''handlers'', Undefined),
              (''component'', Str ''document-fragment'')]
             [Element (Target (Ref 4)) [(''ref'', Ref 5)] []]),
           Rendered (Element HotKeys
             [(''keyMap'', Ref 0), (''handlers'', Undefined),
              (''component'', Str ''document-fragment'')]
             [Element (Target (Ref 4)) [(''ref'', Ref 5), (''id'', Str ''y'')] []])])"
proof -
  have a: "map_of (heap_lookup ex_mounted 11) ''hotKeyHandlers'' = None"
    by (simp add: ex_mounted_def ex_heap_def heap_lookup_def)
  have b: "ComponentDidMount \<notin> set [Update [(''id'', Str ''y'')]]" by simp
  have c: "''handlers'' \<notin> fst ` set (own_entries ex_mounted (componentProps (ex_wrapper Undefined)))"
    by (simp add: ex_wrapper_def)
  have d: "run (ex_wrapper Undefined)
     (mount_calls (Ref 11) ex_mounted @ [Update [(''id'', Str ''y'')]]) (constructor [] ex_heap) =
     Inr ((\<lparr>props = [(''id'', Str ''y'')], state = [(''handlers'', Undefined)], ref = Ref 11,
             bound_setRef = Ref 5\<rparr>, ex_mounted),
          [Rendered (Element HotKeys
             [(''keyMap'', Ref 0), (''handlers'', Ref 6),
              (''component'', Str ''document-fragment'')]
             [Element (Target (Ref 4)) [(''ref'', Ref 5)] []]),
           Committed [(''handlers'', Undefined)],
           Rendered (Element HotKeys
             [(''keyMap'', Ref 0), (''handlers'', Undefined),
              (''component'', Str ''document-fragment'')]
             [Element (Target (Ref 4)) [(''ref'', Ref 5)] []]),
           Rendered (Element HotKeys
             [(''keyMap'', Ref 0), (''handlers'', Undefined),
              (''component'', Str ''document-fragment'')]
             [Element (Target (Ref 4)) [(''ref'', Ref 5), (''id'', Str ''y'')] []])])"
    by (simp add: mount_calls_def constructor_state componentDidMount_def setRef_def render_def
        shouldComponentUpdate_def shallowEqual_def spread_def assign_def ex_wrapper_def
        ex_mounted_def ex_heap_def heap_lookup_def own_prop_def)
  from missing_handlers_undefined [OF a b, of "ex_wrapper Undefined" "[]" ex_heap]
  obtain i' e1
    where "run (ex_wrapper Undefined) (mount_calls (Ref 11) ex_mounted) (constructor [] ex_heap) =
        Inr ((i', ex_mounted), [Rendered e1, Committed [(''handlers'', Undefined)],
                                Rendered (render (ex_wrapper Undefined) i' ex_mounted)])"
      and "state i' = [(''handlers'', Undefined)]"
    by blast
  with a b c d show ?thesis by blast
qed

text \<open>
  C7 as stated fails: with options that carry a \<^verbatim>\<open>handlers\<close> entry, mounting a target
  whose \<^verbatim>\<open>hotKeyHandlers\<close> is empty gives the dispatch unit the entry of the options,
  which need not be empty. Here the target at 9 declares the empty map at 10, the
  options at 2 carry the map at 3, which has one handler.
\<close>

theorem empty_handlers_counterexample:
  "map_of (heap_lookup ex_mounted 9) ''hotKeyHandlers'' = Some (Ref 10) \<and>
   heap_lookup ex_mounted 10 = [] \<and>
   run (ex_wrapper (Ref 2)) (mount_calls (Ref 9) ex_mounted) (constructor [] ex_heap) =
     Inr ((\<lparr>props = [], state = [(''handlers'', Ref 10)], ref = Ref 9, bound_setRef = Ref 5\<rparr>,
           ex_mounted),
          [Rendered (Element HotKeys
             [(''keyMap'', Ref 0), (''handlers'', Ref 3),
              (''component'', Str ''document-fragment'')]
             [Element (Target (Ref 4)) [(''ref'', Ref 5)] []]),
           Committed [(''handlers'', Ref 10)],
           Rendered (Element HotKeys
             [(''keyMap'', Ref 0), (''handlers'', Ref 3),
              (''component'', Str ''document-fragment'')]
             [Element (Target (Ref 4)) [(''ref'', Ref 5)] []])]) \<and>
   own_entries ex_mounted (Ref 3) = [(''other'', Ref 4)]"
  by (simp add: mount_calls_def constructor_state componentDidMount_def setRef_def render_def
      shouldComponentUpdate_def shallowEqual_def spread_def assign_def ex_wrapper_def
      ex_mounted_def ex_heap_def heap_lookup_def own_prop_def)

text \<open>
  C7, amended. For every key map, every target type and every caller's properties:
  when the mounted target is an object whose \<^verbatim>\<open>hotKeyHandlers\<close> is an empty object \<open>m\<close>,
  constructing and mounting the wrapper throws nothing; the host gets the first render,
  the commit of \<open>Ref m\<close> and what the update pass of the commit renders, and from then on
  a render gives the dispatch unit \<open>Ref m\<close>, an empty object, as \<^verbatim>\<open>handlers\<close>, provided the
  options carry no \<^verbatim>\<open>handlers\<close> entry of their own. The pass does render whenever \<open>m\<close> is
  not the object the constructor made.
\<close>

theorem empty_handlers_mount:
  assumes "map_of (heap_lookup h n) ''hotKeyHandlers'' = Some (Ref m)"
    and "heap_lookup h m = []"
  shows "\<exists>i' e1 pass.
     run w (mount_calls (Ref n) h) (constructor p h0) =
       Inr ((i', h), Rendered e1 # Committed [(''handlers'', Ref m)] # pass) \<and>
     state i' = [(''handlers'', Ref m)] \<and>
     (pass = [] \<or> pass = [Rendered (render w i' h)]) \<and>
     (m \<noteq> Suc (length h0) \<longrightarrow> pass = [Rendered (render w i' h)]) \<and>
     (''handlers'' \<notin> fst ` set (own_entries h (componentProps w)) \<longrightarrow>
        map_of (attrs (render w i' h)) ''handlers'' = Some (Ref m) \<and> own_entries h (Ref m) = [])"
proof -
  let ?i1 = "\<lparr>props = p, state = [(''handlers'', Ref (Suc (length h0)))], ref = Ref n,
        bound_setRef = Ref (length h0)\<rparr>"
  let ?i' = "\<lparr>props = p, state = [(''handlers'', Ref m)], ref = Ref n,
        bound_setRef = Ref (length h0)\<rparr>"
  let ?pass = "if shouldComponentUpdate ?i1 p [(''handlers'', Ref m)]
      then [Rendered (render w ?i' h)] else []"
  have rd: "get_prop h (Ref n) ''hotKeyHandlers'' = Inr (Ref m)"
    using assms(1) by (simp add: own_prop_def)
  have r: "run w (mount_calls (Ref n) h) (constructor p h0) =
       Inr ((?i', h),
            Rendered (render w (fst (constructor p h0)) (snd (constructor p h0))) #
            Committed [(''handlers'', Ref m)] # ?pass)"
    using rd by (simp add: run_mount)
  have st: "state ?i' = [(''handlers'', Ref m)]" by simp
  have p1: "?pass = [] \<or> ?pass = [Rendered (render w ?i' h)]" by simp
  have p2: "m \<noteq> Suc (length h0) \<longrightarrow> ?pass = [Rendered (render w ?i' h)]"
    by (simp add: shouldComponentUpdate_changed)
  have "''handlers'' \<notin> fst ` set (own_entries h (componentProps w)) \<longrightarrow>
        map_of (attrs (render w ?i' h)) ''handlers'' = Some (Ref m) \<and> own_entries h (Ref m) = []"
    using assms(2) by (simp add: render_handlers own_prop_def)
  with r st p1 p2 show ?thesis by blast
qed

theorem empty_handlers_mount_witness:
  "map_of (heap_lookup ex_mounted 9) ''hotKeyHandlers'' = Some (Ref 10) \<and>
   heap_lookup ex_mounted 10 = [] \<and>
   ''handlers'' \<notin> fst ` set (own_entries ex_mounted (componentProps (ex_wrapper Undefined))) \<and>
   run (ex_wrapper Undefined) (mount_calls (Ref 9) ex_mounted)
       (constructor [(''id'', Str ''x'')] ex_heap) =
     Inr ((\<lparr>props = [(''id'', Str ''x'')], state = [(''handlers'', Ref 10)], ref = Ref 9,
             bound_setRef = Ref 5\<rparr>, ex_mounted),
          [Rendered (Element HotKeys
             [(''keyMap'', Ref 0), (''handlers'', Ref 6),
              (''component'', Str ''document-fragment'')]
             [Element (Target (Ref 4)) [(''ref'', Ref 5), (''id'', Str ''x'')] []]),
           Committed [(''handlers'', Ref 10)],
           Rendered (Element HotKeys
             [(''keyMap'', Ref 0), (''handlers'', Ref 10),
              (''component'', Str ''document-fragment'')]
             [Element (Target (Ref 4)) [(''ref'', Ref 5), (''id'', Str ''x'')] []])])"
proof -
  have a: "map_of (heap_lookup ex_mounted 9) ''hotKeyHandlers'' = Some (Ref 10)"
    by (simp add: ex_mounted_def ex_heap_def heap_lookup_def)
  have b: "heap_lookup ex_mounted 10 = []"
    by (simp add: ex_mounted_def ex_heap_def heap_lookup_def)
  have c: "''handlers'' \<notin> fst ` set (own_entries ex_mounted (componentProps (ex_wrapper Undefined)))"
    by (simp add: ex_wrapper_def)
  have d: "run (ex_wrapper Undefined) (mount_calls (Ref 9) ex_mounted)
       (constructor [(''id'', Str ''x'')] ex_heap) =
     Inr ((\<lparr>props = [(''id'', Str ''x'')], state = [(''handlers'', Ref 10)], ref = Ref 9,
             bound_setRef = Ref 5\<rparr>, ex_mounted),
          [Rendered (Element HotKeys
             [(''keyMap'', Ref 0), (''handlers'', Ref 6),
              (''component'', Str ''document-fragment'')]
             [Element (Target (Ref 4)) [(''ref'', Ref 5), (''id'', Str ''x'')] []]),
           Committed [(''handlers'', Ref 10)],
           Rendered (Element HotKeys
             [(''keyMap'', Ref 0), (''handlers'', Ref 10),
              (''component'', Str ''document-fragment'')]
             [Element (Target (Ref 4)) [(''ref'', Ref 5), (''id'', Str ''x'')] []])])"
    by (simp add: mount_calls_def constructor_state componentDidMount_def setRef_def render_def
        shouldComponentUpdate_def shallowEqual_def spread_def assign_def ex_wrapper_def
        ex_mounted_def ex_heap_def heap_lookup_def own_prop_def)
  from empty_handlers_mount [OF a b, of "ex_wrapper Undefined" "[(''id'', Str ''x'')]" ex_heap]
  obtain i' e1 pass
    where "run (ex_wrapper Undefined) (mount_calls (Ref 9) ex_mounted)
        (constructor [(''id'', Str ''x'')] ex_heap) =
        Inr ((i', ex_mounted), Rendered e1 # Committed [(''handlers'', Ref 10)] # pass)"
      and "state i' = [(''handlers'', Ref 10)]"
    by blast
  with a b c d show ?thesis by blast
qed

text \<open>
  C9 as stated fails in one part: the wrapper does retain the handle. \<^verbatim>\<open>_setRef\<close> stores
  it in \<^verbatim>\<open>this._ref\<close> and no method of the class clears it, so after activation, and
  after later renders, the instance still holds it. Here the target is the object
  at 7.
\<close>

theorem handle_retained_counterexample:
  "run (ex_wrapper Undefined)
     (mount_calls (Ref 7) ex_mounted @ update_calls ([(''id'', Str ''y'')], ex_mounted))
     (constructor [] ex_heap) =
     Inr ((\<lparr>props = [(''id'', Str ''y'')], state = [(''handlers'', Ref 8)], ref = Ref 7,
             bound_setRef = Ref 5\<rparr>, ex_mounted),
          [Rendered (Element HotKeys
             [(''keyMap'', Ref 0), (''handlers'', Ref 6),
              (''component'', Str ''document-fragment'')]
             [Element (Target (Ref 4)) [(''ref'', Ref 5)] []]),
           Committed [(''handlers'', Ref 8)],
           Rendered (Element HotKeys
             [(''keyMap'', Ref 0), (''handlers'', Ref 8),
              (''component'', Str ''document-fragment'')]
             [Element (Target (Ref 4)) [(''ref'', Ref 5)] []]),
           Rendered (Element HotKeys
             [(''keyMap'', Ref 0), (''handlers'', Ref 8),
              (''component'', Str ''document-fragment'')]
             [Element (Target (Ref 4)) [(''ref'', Ref 5), (''id'', Str ''y'')] []])]) \<and>
   ref \<lparr>props = [(''id'', Str ''y'')], state = [(''handlers'', Ref 8)], ref = Ref 7,
         bound_setRef = Ref 5\<rparr> = Ref 7"
  by (simp add: mount_calls_def constructor_state componentDidMount_def setRef_def render_def
      shouldComponentUpdate_def shallowEqual_def spread_def assign_def ex_wrapper_def
      ex_mounted_def ex_heap_def heap_lookup_def own_prop_def)

text \<open>
  C9, amended. The handle is read at activation only, and what activation takes from it
  is the one value at \<^verbatim>\<open>hotKeyHandlers\<close>: every other call does the same, with the same
  events, whatever \<^verbatim>\<open>this._ref\<close> holds, so no render shows the handle to anyone. The
  handle stays in \<^verbatim>\<open>this._ref\<close> until the host calls the ref callback again. No call of
  the wrapper changes the heap, so the target is never written through the handle.
\<close>

theorem handle_read_at_activation_only:
  "(\<forall>c i h x. c \<noteq> ComponentDidMount \<longrightarrow>
      (\<exists>j g es j'.
         invoke w c (i, h) = Inr ((j, g), es) \<and>
         invoke w c (i\<lparr>ref := x\<rparr>, h) = Inr ((j', g), es) \<and>
         state j' = state j \<and> props j' = props j \<and> bound_setRef j' = bound_setRef j)) \<and>
   (\<forall>i h s es. invoke w ComponentDidMount (i, h) = Inr (s, es) \<longrightarrow>
      s = (i\<lparr>state :=
               assign (state i)
                 [(''handlers'', own_prop (own_entries h (ref i)) ''hotKeyHandlers'')]\<rparr>, h) \<and>
      commits es = [[(''handlers'', own_prop (own_entries h (ref i)) ''hotKeyHandlers'')]]) \<and>
   (\<forall>c i h j g es. (\<forall>node. c \<noteq> SetRef node) \<and> invoke w c (i, h) = Inr ((j, g), es) \<longrightarrow>
      ref j = ref i) \<and>
   (\<forall>c i h j g es. (\<forall>h'. c \<noteq> Environment h') \<and> invoke w c (i, h) = Inr ((j, g), es) \<longrightarrow>
      g = h)"
proof -
  have 1: "\<exists>j g es j'.
         invoke w c (i, h) = Inr ((j, g), es) \<and>
         invoke w c (i\<lparr>ref := x\<rparr>, h) = Inr ((j', g), es) \<and>
         state j' = state j \<and> props j' = props j \<and> bound_setRef j' = bound_setRef j"
    if "c \<noteq> ComponentDidMount" for c i h x
    using that by (cases c) (simp_all add: setRef_def render_def shouldComponentUpdate_def)
  have 2: "s = (i\<lparr>state :=
               assign (state i)
                 [(''handlers'', own_prop (own_entries h (ref i)) ''hotKeyHandlers'')]\<rparr>, h) \<and>
      commits es = [[(''handlers'', own_prop (own_entries h (ref i)) ''hotKeyHandlers'')]]"
    if "invoke w ComponentDidMount (i, h) = Inr (s, es)" for i h s es
    using that by (cases "ref i") (auto simp: componentDidMount_def)
  have 3: "ref j = ref i"
    if "\<forall>node. c \<noteq> SetRef node" and "invoke w c (i, h) = Inr ((j, g), es)" for c i h j g es
    using that by (cases c) (auto simp: componentDidMount_def split: sum.splits)
  have 4: "g = h"
    if "\<forall>h'. c \<noteq> Environment h'" and "invoke w c (i, h) = Inr ((j, g), es)" for c i h j g es
    using that by (cases c) (auto simp: componentDidMount_def split: sum.splits)
  have A: "\<forall>c i h x. c \<noteq> ComponentDidMount \<longrightarrow>
      (\<exists>j g es j'.
         invoke w c (i, h) = Inr ((j, g), es) \<and>
         invoke w c (i\<lparr>ref := x\<rparr>, h) = Inr ((j', g), es) \<and>
         state j' = state j \<and> props j' = props j \<and> bound_setRef j' = bound_setRef j)"
    using 1 by (intro allI impI)
  have B: "\<forall>i h s es. invoke w ComponentDidMount (i, h) = Inr (s, es) \<longrightarrow>
      s = (i\<lparr>state :=
               assign (state i)
                 [(''handlers'', own_prop (own_entries h (ref i)) ''hotKeyHandlers'')]\<rparr>, h) \<and>
      commits es = [[(''handlers'', own_prop (own_entries h (ref i)) ''hotKeyHandlers'')]]"
    using 2 by (intro allI impI)
  have C: "\<forall>c i h j g es. (\<forall>node. c \<noteq> SetRef node) \<and> invoke w c (i, h) = Inr ((j, g), es) \<longrightarrow>
      ref j = ref i"
    using 3 by blast
  have D: "\<forall>c i h j g es. (\<forall>h'. c \<noteq> Environment h') \<and> invoke w c (i, h) = Inr ((j, g), es) \<longrightarrow>
      g = h"
    using 4 by blast
  show ?thesis by (rule conjI [OF A conjI [OF B conjI [OF C D]]])
qed

theorem handle_read_at_activation_only_witness:
  "invoke (ex_wrapper Undefined) ComponentDidMount
     (\<lparr>props = [], state = [(''handlers'', Ref 6)], ref = Ref 7, bound_setRef = Ref 5\<rparr>,
      ex_mounted) =
     Inr ((\<lparr>props = [], state = [(''handlers'', Ref 8)], ref = Ref 7, bound_setRef = Ref 5\<rparr>,
           ex_mounted),
          [Committed [(''handlers'', Ref 8)],
           Rendered (Element HotKeys
             [(''keyMap'', Ref 0), (''handlers'', Ref 8),
              (''component'', Str ''document-fragment'')]
             [Element (Target (Ref 4)) [(''ref'', Ref 5)] []])]) \<and>
   Render \<noteq> ComponentDidMount \<and>
   render (ex_wrapper Undefined)
     \<lparr>props = [], state = [(''handlers'', Ref 8)], ref = Ref 7, bound_setRef = Ref 5\<rparr>
     ex_mounted =
   render (ex_wrapper Undefined)
     (\<lparr>props = [], state = [(''handlers'', Ref 8)], ref = Ref 7, bound_setRef = Ref 5\<rparr>
        \<lparr>ref := Null\<rparr>) ex_mounted"
proof -
  let ?i = "\<lparr>props = [], state = [(''handlers'', Ref 6)], ref = Ref 7, bound_setRef = Ref 5\<rparr>"
  have a: "invoke (ex_wrapper Undefined) ComponentDidMount (?i, ex_mounted) =
     Inr ((\<lparr>props = [], state = [(''handlers'', Ref 8)], ref = Ref 7, bound_setRef = Ref 5\<rparr>,
           ex_mounted),
          [Committed [(''handlers'', Ref 8)],
           Rendered (Element HotKeys
             [(''keyMap'', Ref 0), (''handlers'', Ref 8),
              (''component'', Str ''document-fragment'')]
             [Element (Target (Ref 4)) [(''ref'', Ref 5)] []])])"
    by (simp add: componentDidMount_def render_def shouldComponentUpdate_def shallowEqual_def
        spread_def assign_def ex_wrapper_def ex_mounted_def ex_heap_def heap_lookup_def
        own_prop_def)
  have b: "Render \<noteq> ComponentDidMount" by simp
  have c: "render (ex_wrapper Undefined)
     \<lparr>props = [], state = [(''handlers'', Ref 8)], ref = Ref 7, bound_setRef = Ref 5\<rparr>
     ex_mounted =
   render (ex_wrapper Undefined)
     (\<lparr>props = [], state = [(''handlers'', Ref 8)], ref = Ref 7, bound_setRef = Ref 5\<rparr>
        \<lparr>ref := Null\<rparr>) ex_mounted"
    by (simp add: render_def)
  note t = handle_read_at_activation_only [of "ex_wrapper Undefined", THEN conjunct2,
      THEN conjunct1, rule_format, OF a]
  from t a b c show ?thesis by blast
qed

end
